theory Spec2Isabelle
  imports Complex_Main
begin

section \<open>Walk detection of the dog-walk tracker\<close>

text \<open>
  The development embeds the walk-detection part of the application component
  \<^verbatim>\<open>App\<close>: the helper \<^verbatim>\<open>getDistance\<close> and the callbacks
  \<^verbatim>\<open>startWalk\<close>, \<^verbatim>\<open>handleManualStart\<close> and
  \<^verbatim>\<open>processPositionUpdate\<close>, together with the React state and the two refs
  they read and write.

  Modelling decisions.
  \<^item> A JavaScript \<^verbatim>\<open>number\<close> that holds a coordinate, a radius or a distance is a
    \<^typ>\<open>real\<close>: rounding, infinities and NaN of IEEE doubles are not modelled. A number
    that holds a millisecond time stamp is an \<^typ>\<open>int\<close>, and the confirmation counter
    is a \<^typ>\<open>nat\<close>.
  \<^item> \<^verbatim>\<open>Date.now()\<close> is read once per callback invocation; its value is an argument of
    the modelled callback.
  \<^item> Every callback runs to completion on the state left by the previous one (state
    setters have been applied and the callbacks re-created before the next event).
  \<^item> A \<^verbatim>\<open>TypeError\<close> of the callback is the value \<open>Inl TypeError\<close>.
\<close>

subsection \<open>Constants\<close>

definition HOME_RADIUS_KM :: real where
  "HOME_RADIUS_KM = 5 / 100"

definition WALK_START_CONFIRMATION_COUNT :: nat where
  "WALK_START_CONFIRMATION_COUNT = 3"

definition WALK_END_CONFIRMATION_COUNT :: nat where
  "WALK_END_CONFIRMATION_COUNT = 2"

subsection \<open>Types\<close>

record zone =
  zone_id :: string
  name :: string
  latitude :: real
  longitude :: real
  radius :: real
  color :: string

record point =
  lat :: real
  lng :: real

record walk =
  walk_id :: string
  startTime :: int
  endTime :: "int option"
  duration :: int
  distance :: real
  path :: "point list"
  zonesVisited :: "string list"

record notification_settings =
  enabled :: bool
  hours :: int

record stored_data =
  homeZone :: "zone option"
  customZones :: "zone list"
  walks :: "walk list"
  settings :: notification_settings

text \<open>Of a \<^verbatim>\<open>GeolocationPosition\<close> only \<^verbatim>\<open>coords.latitude\<close> and
  \<^verbatim>\<open>coords.longitude\<close> are read.\<close>

record geo_position =
  coords_latitude :: real
  coords_longitude :: real

datatype walk_status = At_home | Leaving | Walking | Returning

text \<open>The object held by \<^verbatim>\<open>confirmationRef\<close>.\<close>

record confirmation =
  points :: nat
  c_startTime :: int
  c_startPosition :: "point option"

text \<open>The state of the component that the detection reads or writes.\<close>

record app =
  currentPosition :: "geo_position option"
  isWalking :: bool
  currentWalk :: "walk option"
  storedData :: stored_data
  walkStatusRef :: walk_status
  confirmationRef :: confirmation

datatype error = TypeError

subsection \<open>Helper functions\<close>

text \<open>\<^verbatim>\<open>Math.atan2(y, x)\<close> on finite arguments.\<close>

definition Math_atan2 :: "real \<Rightarrow> real \<Rightarrow> real" where
  "Math_atan2 y x =
     (if 0 < x then arctan (y / x)
      else if x < 0 \<and> 0 \<le> y then arctan (y / x) + pi
      else if x < 0 then arctan (y / x) - pi
      else if 0 < y then pi / 2
      else if y < 0 then - (pi / 2)
      else 0)"

text \<open>
  \<^verbatim>\<open>Math.sqrt\<close> is \<^const>\<open>sqrt\<close>: over the reals both \<open>a\<close> and \<open>1 - a\<close> are never negative
  (lemma \<open>hav_range\<close> below), so \<^const>\<open>sqrt\<close> is applied only where \<^verbatim>\<open>Math.sqrt\<close> is
  defined. In double arithmetic rounding can lift \<open>a\<close> above 1, and the code then returns
  NaN; neither that nor any other rounding is modelled. An equation about a value of
  \<open>getDistance\<close> is therefore a fact of this real-valued function only. The properties of
  the detection read \<open>getDistance\<close> through the comparisons that the callbacks make and
  through the sum that they accumulate.
\<close>

definition getDistance :: "real \<Rightarrow> real \<Rightarrow> real \<Rightarrow> real \<Rightarrow> real" where
  "getDistance lat1 lon1 lat2 lon2 =
     (let R = 6371;
          dLat = (lat2 - lat1) * (pi / 180);
          dLon = (lon2 - lon1) * (pi / 180);
          a = sin (dLat / 2) * sin (dLat / 2) +
              cos (lat1 * (pi / 180)) * cos (lat2 * (pi / 180)) *
              sin (dLon / 2) * sin (dLon / 2);
          c = 2 * Math_atan2 (sqrt a) (sqrt (1 - a))
      in R * c)"

text \<open>The haversine term \<^verbatim>\<open>a\<close> of \<^verbatim>\<open>getDistance\<close>, named for the proofs.\<close>

definition hav :: "real \<Rightarrow> real \<Rightarrow> real \<Rightarrow> real \<Rightarrow> real" where
  "hav lat1 lon1 lat2 lon2 =
     (sin ((lat2 - lat1) * (pi / 180) / 2))\<^sup>2 +
      cos (lat1 * (pi / 180)) * cos (lat2 * (pi / 180)) *
      (sin ((lon2 - lon1) * (pi / 180) / 2))\<^sup>2"

text \<open>Decimal rendering of a time stamp inside the template literal
  \<^verbatim>\<open>`walk_${startTime}`\<close>.\<close>

fun digits :: "nat \<Rightarrow> string" where
  "digits n =
     (if n < 10 then [char_of (48 + n)]
      else digits (n div 10) @ [char_of (48 + n mod 10)])"

declare digits.simps [simp del]

definition Number_toString :: "int \<Rightarrow> string" where
  "Number_toString i = (if i < 0 then CHR ''-'' # digits (nat (- i)) else digits (nat i))"

text \<open>A JavaScript \<^verbatim>\<open>Set\<close> of strings is the list of its elements in insertion order:
  \<^verbatim>\<open>new Set(xs)\<close> keeps the first occurrence of every element, \<^verbatim>\<open>add\<close> appends an
  element that is not yet there, and \<^verbatim>\<open>Array.from\<close> reads the list off.\<close>

definition Set_add :: "'a \<Rightarrow> 'a list \<Rightarrow> 'a list" where
  "Set_add x xs = (if x \<in> set xs then xs else xs @ [x])"

definition new_Set :: "'a list \<Rightarrow> 'a list" where
  "new_Set xs = foldl (\<lambda>acc x. Set_add x acc) [] xs"

subsection \<open>The callbacks\<close>

definition startWalk :: "int \<Rightarrow> point \<Rightarrow> app \<Rightarrow> app" where
  "startWalk t0 p0 s =
     (if isWalking s then s
      else s\<lparr>currentWalk :=
                Some \<lparr>walk_id = ''walk_'' @ Number_toString t0, startTime = t0, endTime = None,
                      duration = 0, distance = 0, path = [p0], zonesVisited = []\<rparr>,
             isWalking := True,
             walkStatusRef := Walking\<rparr>)"

text \<open>Without a current position the callback only shows an alert.\<close>

definition handleManualStart :: "int \<Rightarrow> app \<Rightarrow> app" where
  "handleManualStart now s =
     (case currentPosition s of
        Some cp \<Rightarrow> startWalk now \<lparr>lat = coords_latitude cp, lng = coords_longitude cp\<rparr> s
      | None \<Rightarrow> s)"

text \<open>The \<^verbatim>\<open>forEach\<close> over the custom zones that fills \<^verbatim>\<open>visitedZones\<close>.\<close>

definition visitZones :: "real \<Rightarrow> real \<Rightarrow> zone list \<Rightarrow> string list \<Rightarrow> string list" where
  "visitZones la lo zs visited =
     foldl (\<lambda>vs z. if getDistance la lo (latitude z) (longitude z) \<le> radius z
                    then Set_add (name z) vs else vs) visited zs"

text \<open>
  \<^verbatim>\<open>processPositionUpdate\<close>, with \<open>now\<close> the value of \<^verbatim>\<open>Date.now()\<close>.
  Two places can fail. Reading \<^verbatim>\<open>lastPoint.lat\<close> throws when the path is empty. The
  non-null assertion \<^verbatim>\<open>startPosition!\<close> is not checked at run time: a null would become
  the only element of the new path and make the next read of \<^verbatim>\<open>lastPoint.lat\<close> throw;
  the model, whose paths hold points only, reports that failure at the assertion. Neither
  happens in a state the component can reach (lemma \<open>run_total\<close> below).
\<close>

definition processPositionUpdate :: "int \<Rightarrow> geo_position \<Rightarrow> app \<Rightarrow> error + app" where
  "processPositionUpdate now pos s =
     (let s1 = s\<lparr>currentPosition := Some pos\<rparr> in
      case homeZone (storedData s) of
        None \<Rightarrow> Inr s1
      | Some hz \<Rightarrow>
         (let la = coords_latitude pos;
              lo = coords_longitude pos;
              distanceFromHome = getDistance la lo (latitude hz) (longitude hz)
          in
          if walkStatusRef s = At_home \<and> distanceFromHome > HOME_RADIUS_KM then
            Inr (s1\<lparr>walkStatusRef := Leaving,
                    confirmationRef :=
                      \<lparr>points = 1, c_startTime = now,
                       c_startPosition = Some \<lparr>lat = la, lng = lo\<rparr>\<rparr>\<rparr>)
          else if walkStatusRef s = Leaving then
            (if distanceFromHome > HOME_RADIUS_KM then
               (let cf = (confirmationRef s)\<lparr>points := points (confirmationRef s) + 1\<rparr>;
                    s2 = s1\<lparr>confirmationRef := cf\<rparr>
                in
                if points cf \<ge> WALK_START_CONFIRMATION_COUNT then
                  (case c_startPosition cf of
                     Some sp \<Rightarrow> Inr (startWalk (c_startTime cf) sp s2)
                   | None \<Rightarrow> if isWalking s2 then Inr s2 else Inl TypeError)
                else Inr s2)
             else Inr (s1\<lparr>walkStatusRef := At_home\<rparr>))
          else if walkStatusRef s = Walking \<and> currentWalk s \<noteq> None then
            (case currentWalk s of
               None \<Rightarrow> Inr s1
             | Some cw \<Rightarrow>
                (case path cw of
                   [] \<Rightarrow> Inl TypeError
                 | _ # _ \<Rightarrow>
                    (let lastPoint = last (path cw);
                         newDistance = getDistance (lat lastPoint) (lng lastPoint) la lo;
                         visitedZones =
                           visitZones la lo (customZones (storedData s))
                             (new_Set (zonesVisited cw));
                         s2 = s1\<lparr>currentWalk :=
                                    Some (cw\<lparr>distance := distance cw + newDistance,
                                             path := path cw @ [\<lparr>lat = la, lng = lo\<rparr>],
                                             zonesVisited := visitedZones\<rparr>)\<rparr>
                     in
                     if distanceFromHome \<le> HOME_RADIUS_KM then
                       Inr (s2\<lparr>walkStatusRef := Returning,
                               confirmationRef :=
                                 \<lparr>points = 1, c_startTime = now, c_startPosition = None\<rparr>\<rparr>)
                     else Inr s2)))
          else if walkStatusRef s = Returning then
            (if distanceFromHome \<le> HOME_RADIUS_KM then
               (let cf = (confirmationRef s)\<lparr>points := points (confirmationRef s) + 1\<rparr>;
                    s2 = s1\<lparr>confirmationRef := cf\<rparr>
                in
                case currentWalk s of
                  Some cw \<Rightarrow>
                    if points cf \<ge> WALK_END_CONFIRMATION_COUNT then
                      (let endT = c_startTime cf;
                           completedWalk =
                             cw\<lparr>endTime := Some endT,
                                duration := (endT - startTime cw) div 1000\<rparr>
                       in
                       Inr (s2\<lparr>storedData :=
                                 (storedData s)\<lparr>walks := walks (storedData s) @ [completedWalk]\<rparr>,
                               currentWalk := None,
                               isWalking := False,
                               walkStatusRef := At_home\<rparr>))
                    else Inr s2
                | None \<Rightarrow> Inr s2)
             else Inr (s1\<lparr>walkStatusRef := Walking\<rparr>))
          else Inr s1))"

subsection \<open>Runs of the component\<close>

text \<open>An event is a position delivered to \<^verbatim>\<open>processPositionUpdate\<close> or a press of the
  "Start Walk" button; each carries the clock reading of its callback.\<close>

datatype event = PositionUpdate int geo_position | ManualStart int

fun step :: "app \<Rightarrow> event \<Rightarrow> error + app" where
  "step s (PositionUpdate now pos) = processPositionUpdate now pos s"
| "step s (ManualStart now) = Inr (handleManualStart now s)"

fun run :: "app \<Rightarrow> event list \<Rightarrow> error + app" where
  "run s [] = Inr s"
| "run s (e # es) = (case step s e of Inl err \<Rightarrow> Inl err | Inr s' \<Rightarrow> run s' es)"

text \<open>The state after mounting, with the stored data as loaded.\<close>

definition initial_app :: "stored_data \<Rightarrow> app" where
  "initial_app sd =
     \<lparr>currentPosition = None, isWalking = False, currentWalk = None, storedData = sd,
      walkStatusRef = At_home,
      confirmationRef = \<lparr>points = 0, c_startTime = 0, c_startPosition = None\<rparr>\<rparr>"

subsection \<open>Notions used to state the properties\<close>

text \<open>The sum of the distances between consecutive points of a path.\<close>

fun path_length :: "point list \<Rightarrow> real" where
  "path_length (p # q # ps) = getDistance (lat p) (lng p) (lat q) (lng q) + path_length (q # ps)"
| "path_length _ = 0"

definition pt :: "geo_position \<Rightarrow> point" where
  "pt pos = \<lparr>lat = coords_latitude pos, lng = coords_longitude pos\<rparr>"

text \<open>A sample lies beyond the home radius; it lies within a named zone.\<close>

definition outside_home :: "zone \<Rightarrow> geo_position \<Rightarrow> bool" where
  "outside_home hz pos \<longleftrightarrow>
     getDistance (coords_latitude pos) (coords_longitude pos) (latitude hz) (longitude hz)
       > HOME_RADIUS_KM"

definition in_zone :: "point \<Rightarrow> zone \<Rightarrow> bool" where
  "in_zone p z \<longleftrightarrow> getDistance (lat p) (lng p) (latitude z) (longitude z) \<le> radius z"

text \<open>The walks that a run has appended to the stored history.\<close>

definition completed :: "stored_data \<Rightarrow> app \<Rightarrow> walk list" where
  "completed sd s = drop (length (walks sd)) (walks (storedData s))"

text \<open>
  The path that the description of the detection expects, kept beside a run as a pair:
  the candidate start position, and the samples handled in state \<open>Walking\<close> since then.
  A sample handled in state \<open>At_home\<close> beyond the home radius becomes the candidate; a
  manual start with a known position and no walk in progress makes that position the
  candidate; a sample handled in state \<open>Walking\<close> is appended; every other event leaves the
  pair as it is. The state in which an event is handled is read from the run of the
  component.
\<close>

fun expect_step :: "app \<Rightarrow> event \<Rightarrow> point option \<times> point list \<Rightarrow> point option \<times> point list" where
  "expect_step s (PositionUpdate now pos) (c, g) =
     (if walkStatusRef s = At_home \<and>
         (case homeZone (storedData s) of None \<Rightarrow> False | Some hz \<Rightarrow> outside_home hz pos)
      then (Some (pt pos), [])
      else if walkStatusRef s = Walking then (c, g @ [pt pos])
      else (c, g))"
| "expect_step s (ManualStart now) (c, g) =
     (case currentPosition s of
        None \<Rightarrow> (c, g)
      | Some cp \<Rightarrow> if currentWalk s = None then (Some (pt cp), []) else (c, g))"

fun expected :: "app \<Rightarrow> point option \<times> point list \<Rightarrow> event list \<Rightarrow> point option \<times> point list" where
  "expected s cg [] = cg"
| "expected s cg (e # es) =
     (case step s e of Inl err \<Rightarrow> cg | Inr s' \<Rightarrow> expected s' (expect_step s e cg) es)"

text \<open>Invariants of the reachable states, used by the proofs below.\<close>

definition state_inv :: "app \<Rightarrow> bool" where
  "state_inv s \<longleftrightarrow>
     isWalking s = (currentWalk s \<noteq> None) \<and>
     ((walkStatusRef s = Walking \<or> walkStatusRef s = Returning) = (currentWalk s \<noteq> None)) \<and>
     (walkStatusRef s = Leaving \<longrightarrow> c_startPosition (confirmationRef s) \<noteq> None) \<and>
     (case currentWalk s of None \<Rightarrow> True | Some w \<Rightarrow> path w \<noteq> [] \<and> endTime w = None)"

definition walk_inv :: "walk \<Rightarrow> bool" where
  "walk_inv w \<longleftrightarrow> distance w = path_length (path w) \<and> distinct (zonesVisited w)"

definition data_inv :: "stored_data \<Rightarrow> app \<Rightarrow> bool" where
  "data_inv sd s \<longleftrightarrow>
     homeZone (storedData s) = homeZone sd \<and>
     customZones (storedData s) = customZones sd \<and>
     settings (storedData s) = settings sd \<and>
     (\<exists>ws. walks (storedData s) = walks sd @ ws \<and>
           (\<forall>w\<in>set ws. endTime w \<noteq> None \<and> walk_inv w)) \<and>
     (case currentWalk s of None \<Rightarrow> True | Some w \<Rightarrow> walk_inv w)"

definition ghost_inv :: "app \<Rightarrow> point option \<times> point list \<Rightarrow> bool" where
  "ghost_inv s cg \<longleftrightarrow>
     (walkStatusRef s = Leaving \<longrightarrow>
        c_startPosition (confirmationRef s) = fst cg \<and> snd cg = []) \<and>
     (case currentWalk s of
        None \<Rightarrow> True
      | Some w \<Rightarrow>
          (case fst cg of None \<Rightarrow> False | Some st \<Rightarrow> path w = st # snd cg) \<and>
          (\<forall>p\<in>set (snd cg). \<forall>z\<in>set (customZones (storedData s)).
              in_zone p z \<longrightarrow> name z \<in> set (zonesVisited w)))"

subsection \<open>A concrete household\<close>

text \<open>Home on the equator at longitude 0, one named zone at the antipode, and two positions:
  one at the antipode and one at the door.\<close>

definition example_home :: zone where
  "example_home = \<lparr>zone_id = ''home'', name = ''Home'', latitude = 0, longitude = 0,
                    radius = HOME_RADIUS_KM, color = ''#A8A5A3''\<rparr>"

definition example_park :: zone where
  "example_park = \<lparr>zone_id = ''zone_1'', name = ''Park'', latitude = 0, longitude = 180,
                    radius = 1, color = ''#F87171''\<rparr>"

definition example_data :: stored_data where
  "example_data = \<lparr>homeZone = Some example_home, customZones = [example_park], walks = [],
                    settings = \<lparr>enabled = False, hours = 8\<rparr>\<rparr>"

definition away :: geo_position where
  "away = \<lparr>coords_latitude = 0, coords_longitude = 180\<rparr>"

definition at_door :: geo_position where
  "at_door = \<lparr>coords_latitude = 0, coords_longitude = 0\<rparr>"

definition example_walk :: "int \<Rightarrow> point list \<Rightarrow> real \<Rightarrow> string list \<Rightarrow> walk" where
  "example_walk t0 ps d zs =
     \<lparr>walk_id = ''walk_'' @ Number_toString t0, startTime = t0, endTime = None,
      duration = 0, distance = d, path = ps, zonesVisited = zs\<rparr>"

definition example_state ::
  "geo_position \<Rightarrow> walk option \<Rightarrow> walk list \<Rightarrow> walk_status \<Rightarrow> confirmation \<Rightarrow> app" where
  "example_state cp cw ws st cf =
     \<lparr>currentPosition = Some cp, isWalking = (cw \<noteq> None), currentWalk = cw,
      storedData = example_data\<lparr>walks := ws\<rparr>, walkStatusRef = st, confirmationRef = cf\<rparr>"

section \<open>Geodesy\<close>

lemma getDistance_hav:
  "getDistance lat1 lon1 lat2 lon2 =
     6371 * (2 * Math_atan2 (sqrt (hav lat1 lon1 lat2 lon2)) (sqrt (1 - hav lat1 lon1 lat2 lon2)))"
  by (simp add: getDistance_def hav_def Let_def power2_eq_square mult.assoc)

lemma hav_alt:
  "hav lat1 lon1 lat2 lon2 =
     (1 - cos ((lat2 - lat1) * (pi / 180)) * (1 - (sin ((lon2 - lon1) * (pi / 180) / 2))\<^sup>2)
        + cos ((lat1 + lat2) * (pi / 180)) * (sin ((lon2 - lon1) * (pi / 180) / 2))\<^sup>2) / 2"
proof -
  define x where "x = (lat2 - lat1) * (pi / 180) / 2"
  have x2: "(lat2 - lat1) * (pi / 180) = 2 * x" by (simp add: x_def)
  have a: "(sin ((lat2 - lat1) * (pi / 180) / 2))\<^sup>2 = (1 - cos ((lat2 - lat1) * (pi / 180))) / 2"
    unfolding x2 using cos_double_sin [of x] by simp
  define u where "u = lat2 * (pi / 180)"
  define v where "v = lat1 * (pi / 180)"
  have uv: "(lat2 - lat1) * (pi / 180) = u - v" "(lat1 + lat2) * (pi / 180) = u + v"
    by (simp_all add: u_def v_def left_diff_distrib distrib_right add.commute)
  have b: "cos (lat1 * (pi / 180)) * cos (lat2 * (pi / 180)) =
        (cos ((lat2 - lat1) * (pi / 180)) + cos ((lat1 + lat2) * (pi / 180))) / 2"
    unfolding uv using cos_times_cos [of u v] by (simp add: u_def v_def mult.commute)
  have alg: "(1 - C) / 2 + (C + D) / 2 * t = (1 - C * (1 - t) + D * t) / 2" for C D t :: real
    by (simp add: field_simps)
  show ?thesis unfolding hav_def a b by (rule alg)
qed

lemma hav_range: "0 \<le> hav lat1 lon1 lat2 lon2 \<and> hav lat1 lon1 lat2 lon2 \<le> 1"
proof -
  define C where "C = cos ((lat2 - lat1) * (pi / 180))"
  define D where "D = cos ((lat1 + lat2) * (pi / 180))"
  define s where "s = (sin ((lon2 - lon1) * (pi / 180) / 2))\<^sup>2"
  have C: "- 1 \<le> C" "C \<le> 1" and D: "- 1 \<le> D" "D \<le> 1" by (simp_all add: C_def D_def)
  have s: "0 \<le> s" "s \<le> 1" by (simp_all add: s_def abs_square_le_1)
  have h: "hav lat1 lon1 lat2 lon2 = (1 - C * (1 - s) + D * s) / 2"
    unfolding hav_alt C_def D_def s_def ..
  have 1: "C * (1 - s) \<le> 1 * (1 - s)" using C s by (intro mult_right_mono) auto
  have 2: "- 1 * (1 - s) \<le> C * (1 - s)" using C s by (intro mult_right_mono) auto
  have 3: "D * s \<le> 1 * s" using D s by (intro mult_right_mono) auto
  have 4: "- 1 * s \<le> D * s" using D s by (intro mult_right_mono) auto
  show ?thesis unfolding h using 1 2 3 4 by simp
qed

lemma getDistance_same: "getDistance la lo la lo = 0"
  by (simp add: getDistance_def Math_atan2_def)

lemma getDistance_antipode: "getDistance 0 180 0 0 = 6371 * pi"
  by (simp add: getDistance_def Math_atan2_def)

lemma getDistance_antipode2: "getDistance 0 0 0 180 = 6371 * pi"
  by (simp add: getDistance_def Math_atan2_def)

section \<open>Sets of zone names and path lengths\<close>

lemma Set_add_set: "set (Set_add x xs) = insert x (set xs)"
  by (auto simp: Set_add_def)

lemma Set_add_distinct: "distinct xs \<Longrightarrow> distinct (Set_add x xs)"
  by (simp add: Set_add_def)

lemma foldl_Set_add: "distinct acc \<Longrightarrow>
   distinct (foldl (\<lambda>acc x. Set_add x acc) acc xs) \<and>
   set (foldl (\<lambda>acc x. Set_add x acc) acc xs) = set acc \<union> set xs"
  by (induction xs arbitrary: acc) (auto simp: Set_add_set Set_add_distinct)

lemma new_Set_distinct: "distinct (new_Set xs)"
  using foldl_Set_add [of "[]" xs] by (simp add: new_Set_def)

lemma new_Set_set: "set (new_Set xs) = set xs"
  using foldl_Set_add [of "[]" xs] by (simp add: new_Set_def)

lemma new_Set_id: "distinct xs \<Longrightarrow> new_Set xs = xs"
proof -
  have "distinct (acc @ xs) \<Longrightarrow> foldl (\<lambda>acc x. Set_add x acc) acc xs = acc @ xs" for acc
    by (induction xs arbitrary: acc) (auto simp: Set_add_def)
  from this [of "[]"] show "distinct xs \<Longrightarrow> new_Set xs = xs" by (simp add: new_Set_def)
qed

lemma visitZones_distinct: "distinct vs \<Longrightarrow> distinct (visitZones la lo zs vs)"
  unfolding visitZones_def by (induction zs arbitrary: vs) (auto simp: Set_add_distinct)

lemma visitZones_mono: "set vs \<subseteq> set (visitZones la lo zs vs)"
  unfolding visitZones_def
proof (induction zs arbitrary: vs)
  case Nil then show ?case by simp
next
  case (Cons z zs)
  show ?case using Cons.IH [of "Set_add (name z) vs"] Cons.IH [of vs]
    by (auto simp: Set_add_set)
qed

lemma visitZones_hit:
  "z \<in> set zs \<Longrightarrow> getDistance la lo (latitude z) (longitude z) \<le> radius z \<Longrightarrow>
   name z \<in> set (visitZones la lo zs vs)"
proof (induction zs arbitrary: vs)
  case Nil then show ?case by simp
next
  case (Cons y zs)
  show ?case
  proof (cases "z = y")
    case True
    have "name y \<in> set (Set_add (name y) vs)" by (simp add: Set_add_set)
    then have "name y \<in> set (visitZones la lo zs (Set_add (name y) vs))"
      using visitZones_mono by blast
    with True Cons.prems show ?thesis by (simp add: visitZones_def)
  next
    case False
    with Cons.prems have "z \<in> set zs" by simp
    from Cons.IH [OF this Cons.prems(2)] show ?thesis by (simp add: visitZones_def)
  qed
qed

lemma path_length_snoc:
  "ps \<noteq> [] \<Longrightarrow>
   path_length (ps @ [q]) = path_length ps + getDistance (lat (last ps)) (lng (last ps)) (lat q) (lng q)"
proof (induction ps)
  case Nil
  then show ?case by simp
next
  case (Cons p ps)
  show ?case
  proof (cases ps)
    case Nil
    then show ?thesis by simp
  next
    case (Cons r rs)
    with Cons.IH show ?thesis by simp
  qed
qed

section \<open>Invariants of the detection\<close>

lemma step_total: "state_inv s \<Longrightarrow> \<exists>s'. step s e = Inr s'"
  by (cases e)
     (auto simp: state_inv_def processPositionUpdate_def Let_def
           split: option.splits list.splits)

lemma step_state_inv: "state_inv s \<Longrightarrow> step s e = Inr s' \<Longrightarrow> state_inv s'"
  by (cases e)
     (auto simp: state_inv_def processPositionUpdate_def handleManualStart_def startWalk_def Let_def
           split: option.splits list.splits if_splits)

lemma visitZones_keep: "n \<in> set vs \<Longrightarrow> n \<in> set (visitZones la lo zs vs)"
  using visitZones_mono by blast

lemma step_data_inv:
  "state_inv s \<Longrightarrow> data_inv sd s \<Longrightarrow> step s e = Inr s' \<Longrightarrow> data_inv sd s'"
  by (cases e)
     (auto simp: state_inv_def data_inv_def walk_inv_def processPositionUpdate_def
                 handleManualStart_def startWalk_def Let_def path_length_snoc
                 visitZones_distinct new_Set_distinct list.case_eq_if
           split: option.splits if_splits)

lemma step_ghost_inv:
  "state_inv s \<Longrightarrow> homeZone (storedData s) \<noteq> None \<Longrightarrow> ghost_inv s cg \<Longrightarrow> step s e = Inr s' \<Longrightarrow>
   ghost_inv s' (expect_step s e cg)"
  apply (cases e; cases cg)
   apply (auto simp: state_inv_def ghost_inv_def processPositionUpdate_def
                 handleManualStart_def startWalk_def Let_def pt_def in_zone_def outside_home_def
                 visitZones_hit visitZones_keep new_Set_set list.case_eq_if
           split: option.splits if_splits)
  done

lemma run_append:
  "run s (xs @ ys) = (case run s xs of Inl err \<Rightarrow> Inl err | Inr s' \<Rightarrow> run s' ys)"
  by (induction xs arbitrary: s) (auto split: sum.splits)

lemma distinct_count_list: "distinct xs \<Longrightarrow> count_list xs x = (if x \<in> set xs then 1 else 0)"
  by (induction xs) auto

lemma initial_state_inv: "state_inv (initial_app sd)"
  by (simp add: state_inv_def initial_app_def)

lemma initial_data_inv: "data_inv sd (initial_app sd)"
  by (simp add: data_inv_def initial_app_def)

lemma initial_ghost_inv: "ghost_inv (initial_app sd) (None, [])"
  by (simp add: ghost_inv_def initial_app_def)

lemma run_invariants:
  "state_inv s \<Longrightarrow> data_inv sd s \<Longrightarrow>
   \<exists>s'. run s evs = Inr s' \<and> state_inv s' \<and> data_inv sd s'"
proof (induction evs arbitrary: s)
  case Nil
  then show ?case by simp
next
  case (Cons e evs)
  from step_total [OF Cons.prems(1)] obtain s1 where s1: "step s e = Inr s1" by blast
  have "state_inv s1" using step_state_inv [OF Cons.prems(1) s1] .
  moreover have "data_inv sd s1" using step_data_inv [OF Cons.prems s1] .
  ultimately show ?case using Cons.IH [of s1] s1 by simp
qed

lemma run_ghost_inv:
  "state_inv s \<Longrightarrow> data_inv sd s \<Longrightarrow> homeZone sd \<noteq> None \<Longrightarrow> ghost_inv s cg \<Longrightarrow>
   run s evs = Inr s' \<Longrightarrow> ghost_inv s' (expected s cg evs)"
proof (induction evs arbitrary: s cg)
  case Nil
  then show ?case by simp
next
  case (Cons e evs)
  from step_total [OF Cons.prems(1)] obtain s1 where s1: "step s e = Inr s1" by blast
  have h: "homeZone (storedData s) \<noteq> None" using Cons.prems(2,3) by (simp add: data_inv_def)
  have a: "state_inv s1" using step_state_inv [OF Cons.prems(1) s1] .
  have b: "data_inv sd s1" using step_data_inv [OF Cons.prems(1,2) s1] .
  have c: "ghost_inv s1 (expect_step s e cg)"
    using step_ghost_inv [OF Cons.prems(1) h Cons.prems(4) s1] .
  have d: "run s1 evs = Inr s'" using Cons.prems(5) s1 by simp
  show ?case using Cons.IH [OF a b Cons.prems(3) c d] s1 by simp
qed

lemma reachable_invariants:
  "\<exists>s. run (initial_app sd) evs = Inr s \<and> state_inv s \<and> data_inv sd s"
  using run_invariants [OF initial_state_inv initial_data_inv] .

lemma run_total: "\<exists>s. run (initial_app sd) evs = Inr s"
  using reachable_invariants by blast

lemma reachable_state_inv: "run (initial_app sd) evs = Inr s \<Longrightarrow> state_inv s"
  using reachable_invariants [of sd evs] by auto

lemma reachable_data_inv: "run (initial_app sd) evs = Inr s \<Longrightarrow> data_inv sd s"
  using reachable_invariants [of sd evs] by auto

lemma reachable_ghost_inv:
  "run (initial_app sd) evs = Inr s \<Longrightarrow> homeZone sd \<noteq> None \<Longrightarrow>
   ghost_inv s (expected (initial_app sd) (None, []) evs)"
  using run_ghost_inv [OF initial_state_inv initial_data_inv _ initial_ghost_inv] by blast

lemma completed_eq: "walks (storedData s) = walks sd @ ws \<Longrightarrow> completed sd s = ws"
  by (simp add: completed_def)

section \<open>The branches of the position callback\<close>

lemma ppu_At_home_outside:
  "walkStatusRef s = At_home \<Longrightarrow> homeZone (storedData s) = Some hz \<Longrightarrow> outside_home hz pos \<Longrightarrow>
   processPositionUpdate now pos s =
     Inr (s\<lparr>currentPosition := Some pos, walkStatusRef := Leaving,
            confirmationRef := \<lparr>points = 1, c_startTime = now, c_startPosition = Some (pt pos)\<rparr>\<rparr>)"
  by (simp add: processPositionUpdate_def outside_home_def pt_def Let_def)

lemma ppu_Leaving_outside:
  "walkStatusRef s = Leaving \<Longrightarrow> homeZone (storedData s) = Some hz \<Longrightarrow> outside_home hz pos \<Longrightarrow>
   \<not> isWalking s \<Longrightarrow> c_startPosition (confirmationRef s) = Some sp \<Longrightarrow>
   processPositionUpdate now pos s =
     Inr (if points (confirmationRef s) + 1 \<ge> WALK_START_CONFIRMATION_COUNT
          then s\<lparr>currentPosition := Some pos,
                 confirmationRef := (confirmationRef s)\<lparr>points := points (confirmationRef s) + 1\<rparr>,
                 currentWalk :=
                   Some \<lparr>walk_id = ''walk_'' @ Number_toString (c_startTime (confirmationRef s)),
                         startTime = c_startTime (confirmationRef s), endTime = None,
                         duration = 0, distance = 0, path = [sp], zonesVisited = []\<rparr>,
                 isWalking := True, walkStatusRef := Walking\<rparr>
          else s\<lparr>currentPosition := Some pos,
                 confirmationRef := (confirmationRef s)\<lparr>points := points (confirmationRef s) + 1\<rparr>\<rparr>)"
  by (simp add: processPositionUpdate_def outside_home_def startWalk_def Let_def)

lemma ppu_Leaving_inside:
  "walkStatusRef s = Leaving \<Longrightarrow> homeZone (storedData s) = Some hz \<Longrightarrow> \<not> outside_home hz pos \<Longrightarrow>
   processPositionUpdate now pos s = Inr (s\<lparr>currentPosition := Some pos, walkStatusRef := At_home\<rparr>)"
  by (simp add: processPositionUpdate_def outside_home_def Let_def)

lemma ppu_Walking:
  "walkStatusRef s = Walking \<Longrightarrow> homeZone (storedData s) = Some hz \<Longrightarrow>
   currentWalk s = Some w \<Longrightarrow> path w \<noteq> [] \<Longrightarrow>
   processPositionUpdate now pos s =
     (let w1 = w\<lparr>distance := distance w +
                     getDistance (lat (last (path w))) (lng (last (path w)))
                       (coords_latitude pos) (coords_longitude pos),
                  path := path w @ [pt pos],
                  zonesVisited :=
                    visitZones (coords_latitude pos) (coords_longitude pos)
                      (customZones (storedData s)) (new_Set (zonesVisited w))\<rparr>
      in Inr (if outside_home hz pos
              then s\<lparr>currentPosition := Some pos, currentWalk := Some w1\<rparr>
              else s\<lparr>currentPosition := Some pos, currentWalk := Some w1,
                     walkStatusRef := Returning,
                     confirmationRef :=
                       \<lparr>points = 1, c_startTime = now, c_startPosition = None\<rparr>\<rparr>))"
  by (simp add: processPositionUpdate_def outside_home_def pt_def Let_def list.case_eq_if)

lemma ppu_Returning_inside:
  "walkStatusRef s = Returning \<Longrightarrow> homeZone (storedData s) = Some hz \<Longrightarrow>
   currentWalk s = Some w \<Longrightarrow> \<not> outside_home hz pos \<Longrightarrow>
   processPositionUpdate now pos s =
     Inr (if points (confirmationRef s) + 1 \<ge> WALK_END_CONFIRMATION_COUNT
          then s\<lparr>currentPosition := Some pos,
                 confirmationRef := (confirmationRef s)\<lparr>points := points (confirmationRef s) + 1\<rparr>,
                 storedData := (storedData s)
                   \<lparr>walks := walks (storedData s) @
                      [w\<lparr>endTime := Some (c_startTime (confirmationRef s)),
                         duration := (c_startTime (confirmationRef s) - startTime w) div 1000\<rparr>]\<rparr>,
                 currentWalk := None, isWalking := False, walkStatusRef := At_home\<rparr>
          else s\<lparr>currentPosition := Some pos,
                 confirmationRef := (confirmationRef s)\<lparr>points := points (confirmationRef s) + 1\<rparr>\<rparr>)"
  by (simp add: processPositionUpdate_def outside_home_def Let_def)

lemma ppu_Returning_outside:
  "walkStatusRef s = Returning \<Longrightarrow> homeZone (storedData s) = Some hz \<Longrightarrow> outside_home hz pos \<Longrightarrow>
   processPositionUpdate now pos s = Inr (s\<lparr>currentPosition := Some pos, walkStatusRef := Walking\<rparr>)"
  by (simp add: processPositionUpdate_def outside_home_def Let_def)

lemma reachable_home:
  "run (initial_app sd) evs = Inr s \<Longrightarrow> homeZone (storedData s) = homeZone sd"
  using reachable_data_inv [of sd evs s] by (simp add: data_inv_def)

lemma reachable_zones:
  "run (initial_app sd) evs = Inr s \<Longrightarrow> customZones (storedData s) = customZones sd"
  using reachable_data_inv [of sd evs s] by (simp add: data_inv_def)

lemma reachable_no_walk:
  "run (initial_app sd) evs = Inr s \<Longrightarrow> walkStatusRef s = At_home \<or> walkStatusRef s = Leaving \<Longrightarrow>
   \<not> isWalking s \<and> currentWalk s = None"
  using reachable_state_inv [of sd evs s] by (auto simp: state_inv_def)

lemma reachable_walk:
  "run (initial_app sd) evs = Inr s \<Longrightarrow> currentWalk s = Some w \<Longrightarrow>
   isWalking s \<and> path w \<noteq> [] \<and> endTime w = None"
  using reachable_state_inv [of sd evs s] by (auto simp: state_inv_def)

section \<open>Runs of the concrete household\<close>

lemma away_outside: "HOME_RADIUS_KM < getDistance 0 180 0 0"
  using pi_ge_two by (simp add: getDistance_antipode HOME_RADIUS_KM_def)

lemma away_not_inside: "\<not> getDistance 0 180 0 0 \<le> HOME_RADIUS_KM"
  using away_outside by simp

lemma at_door_inside: "0 \<le> HOME_RADIUS_KM" "\<not> HOME_RADIUS_KM < 0"
  by (simp_all add: HOME_RADIUS_KM_def)

lemma at_door_not_in_park: "\<not> getDistance 0 0 0 180 \<le> 1"
  using pi_ge_two by (simp add: getDistance_antipode2)

lemmas example_simps =
  example_home_def example_park_def example_data_def away_def at_door_def example_walk_def
  example_state_def initial_app_def processPositionUpdate_def handleManualStart_def startWalk_def
  visitZones_def new_Set_def Set_add_def Let_def pt_def
  WALK_START_CONFIRMATION_COUNT_def WALK_END_CONFIRMATION_COUNT_def
  away_outside away_not_inside at_door_inside at_door_not_in_park getDistance_same

lemma example_run_1:
  "run (initial_app example_data) [PositionUpdate 1000 away] =
   Inr (example_state away None [] Leaving
          \<lparr>points = 1, c_startTime = 1000, c_startPosition = Some (pt away)\<rparr>)"
  by (simp add: example_simps)

lemma example_run_3:
  "run (initial_app example_data)
     [PositionUpdate 1000 away, PositionUpdate 2000 away, PositionUpdate 3000 away] =
   Inr (example_state away (Some (example_walk 1000 [pt away] 0 [])) [] Walking
          \<lparr>points = 3, c_startTime = 1000, c_startPosition = Some (pt away)\<rparr>)"
  by (simp add: example_simps)

lemma example_run_5:
  "run (initial_app example_data)
     [PositionUpdate 1000 away, PositionUpdate 2000 away, PositionUpdate 3000 away,
      PositionUpdate 4000 away, PositionUpdate 5000 at_door] =
   Inr (example_state at_door
          (Some (example_walk 1000 [pt away, pt away, pt at_door] (getDistance 0 180 0 0) [''Park'']))
          [] Returning
          \<lparr>points = 1, c_startTime = 5000, c_startPosition = None\<rparr>)"
  by (simp add: example_simps)

lemma example_run_6:
  "run (initial_app example_data)
     [PositionUpdate 1000 away, PositionUpdate 2000 away, PositionUpdate 3000 away,
      PositionUpdate 4000 away, PositionUpdate 5000 away, PositionUpdate 6000 at_door] =
   Inr (example_state at_door
          (Some (example_walk 1000 [pt away, pt away, pt away, pt at_door]
                   (getDistance 0 180 0 0) [''Park'']))
          [] Returning
          \<lparr>points = 1, c_startTime = 6000, c_startPosition = None\<rparr>)"
  by (simp add: example_simps)

lemma example_expected_6:
  "expected (initial_app example_data) (None, [])
     [PositionUpdate 1000 away, PositionUpdate 2000 away, PositionUpdate 3000 away,
      PositionUpdate 4000 away, PositionUpdate 5000 away, PositionUpdate 6000 at_door] =
   (Some (pt away), [pt away, pt away, pt at_door])"
  by (simp add: example_simps outside_home_def)

lemma example_run_7:
  "run (initial_app example_data)
     [PositionUpdate 1000 away, PositionUpdate 2000 away, PositionUpdate 3000 away,
      PositionUpdate 4000 away, PositionUpdate 5000 at_door, PositionUpdate 6000 away,
      PositionUpdate 7000 at_door] =
   Inr (example_state at_door
          (Some (example_walk 1000 [pt away, pt away, pt at_door, pt at_door]
                   (getDistance 0 180 0 0) [''Park'']))
          [] Returning
          \<lparr>points = 1, c_startTime = 7000, c_startPosition = None\<rparr>)"
  by (simp add: example_simps)

lemma example_expected_7:
  "expected (initial_app example_data) (None, [])
     [PositionUpdate 1000 away, PositionUpdate 2000 away, PositionUpdate 3000 away,
      PositionUpdate 4000 away, PositionUpdate 5000 at_door, PositionUpdate 6000 away,
      PositionUpdate 7000 at_door] =
   (Some (pt away), [pt away, pt at_door, pt at_door])"
  by (simp add: example_simps outside_home_def)

lemma example_run_10:
  "run (initial_app example_data)
     [PositionUpdate 1000 away, PositionUpdate 2000 away, PositionUpdate 3000 away,
      PositionUpdate 4000 away, PositionUpdate 5000 at_door, PositionUpdate 6000 at_door,
      PositionUpdate 7000 away, PositionUpdate 8000 away, PositionUpdate 9000 away,
      PositionUpdate 10000 at_door] =
   Inr (example_state at_door
          (Some (example_walk 7000 [pt away, pt at_door] (getDistance 0 180 0 0) []))
          [(example_walk 1000 [pt away, pt away, pt at_door] (getDistance 0 180 0 0) [''Park''])
             \<lparr>endTime := Some 5000, duration := 4\<rparr>]
          Returning
          \<lparr>points = 1, c_startTime = 10000, c_startPosition = None\<rparr>)"
  by (simp add: example_simps)

section \<open>Properties of the detection\<close>

text \<open>
  Claim C1. After every sequence of position updates and manual starts the callbacks have
  not failed, the detection status is \<open>Walking\<close> or \<open>Returning\<close> exactly when a walk is in
  progress, and \<open>At_home\<close> or \<open>Leaving\<close> exactly when none is. The walk in progress is the one
  held in \<open>currentWalk\<close>: every walk that the run has added to the history has its end time
  set.
\<close>

theorem status_agrees_with_walk:
  "\<exists>s. run (initial_app sd) evs = Inr s \<and>
       ((walkStatusRef s = Walking \<or> walkStatusRef s = Returning) \<longleftrightarrow> currentWalk s \<noteq> None) \<and>
       ((walkStatusRef s = At_home \<or> walkStatusRef s = Leaving) \<longleftrightarrow> currentWalk s = None) \<and>
       (isWalking s \<longleftrightarrow> currentWalk s \<noteq> None) \<and>
       walks (storedData s) = walks sd @ completed sd s \<and>
       (\<forall>w\<in>set (completed sd s). endTime w \<noteq> None)"
proof -
  obtain s where r: "run (initial_app sd) evs = Inr s" and i: "state_inv s" and d: "data_inv sd s"
    using reachable_invariants by blast
  from d obtain ws where ws: "walks (storedData s) = walks sd @ ws" "\<forall>w\<in>set ws. endTime w \<noteq> None"
    by (auto simp: data_inv_def)
  have c: "completed sd s = ws" using ws(1) by (rule completed_eq)
  have "(walkStatusRef s = At_home \<or> walkStatusRef s = Leaving) \<longleftrightarrow>
        \<not> (walkStatusRef s = Walking \<or> walkStatusRef s = Returning)"
    by (cases "walkStatusRef s") simp_all
  with i r ws c show ?thesis by (auto simp: state_inv_def)
qed

theorem status_agrees_with_walk_witness:
  "\<exists>s. run (initial_app example_data)
          [PositionUpdate 1000 away, PositionUpdate 2000 away, PositionUpdate 3000 away] = Inr s \<and>
       walkStatusRef s = Walking \<and> currentWalk s \<noteq> None \<and> isWalking s \<and>
       completed example_data s = []"
proof -
  let ?evs = "[PositionUpdate 1000 away, PositionUpdate 2000 away, PositionUpdate 3000 away]"
  let ?st = "example_state away (Some (example_walk 1000 [pt away] 0 [])) [] Walking
               \<lparr>points = 3, c_startTime = 1000, c_startPosition = Some (pt away)\<rparr>"
  have e: "run (initial_app example_data) ?evs = Inr ?st" by (rule example_run_3)
  from status_agrees_with_walk [of example_data ?evs]
  obtain s where s: "run (initial_app example_data) ?evs = Inr s"
    and a: "(walkStatusRef s = Walking \<or> walkStatusRef s = Returning) \<longleftrightarrow> currentWalk s \<noteq> None"
    and b: "isWalking s \<longleftrightarrow> currentWalk s \<noteq> None"
    and c: "walks (storedData s) = walks example_data @ completed example_data s"
    by blast
  from s have st: "s = ?st" unfolding e by simp
  have w: "walkStatusRef s = Walking" unfolding st by (simp add: example_state_def)
  have "completed example_data s = []"
    using c unfolding st by (simp add: example_state_def example_data_def)
  with s a b w show ?thesis by blast
qed

text \<open>
  Claim C2. From a reachable state with status \<open>At_home\<close>, the first and the second of three
  consecutive samples beyond the home radius leave the status at \<open>Leaving\<close> with no walk; the
  third sets the status to \<open>Walking\<close>, sets \<open>isWalking\<close> and creates the walk in progress,
  whose start time is the clock reading taken with the first sample and whose path is
  that first position alone.
\<close>

theorem start_debounce:
  assumes "run (initial_app sd) evs = Inr s" and "walkStatusRef s = At_home"
    and "homeZone sd = Some hz"
    and "outside_home hz p1" and "outside_home hz p2" and "outside_home hz p3"
  shows "run s [PositionUpdate t1 p1] =
           Inr (s\<lparr>currentPosition := Some p1, walkStatusRef := Leaving,
                  confirmationRef :=
                    \<lparr>points = 1, c_startTime = t1, c_startPosition = Some (pt p1)\<rparr>\<rparr>) \<and>
         run s [PositionUpdate t1 p1, PositionUpdate t2 p2] =
           Inr (s\<lparr>currentPosition := Some p2, walkStatusRef := Leaving,
                  confirmationRef :=
                    \<lparr>points = 2, c_startTime = t1, c_startPosition = Some (pt p1)\<rparr>\<rparr>) \<and>
         run s [PositionUpdate t1 p1, PositionUpdate t2 p2, PositionUpdate t3 p3] =
           Inr (s\<lparr>currentPosition := Some p3, walkStatusRef := Walking, isWalking := True,
                  confirmationRef :=
                    \<lparr>points = 3, c_startTime = t1, c_startPosition = Some (pt p1)\<rparr>,
                  currentWalk :=
                    Some \<lparr>walk_id = ''walk_'' @ Number_toString t1, startTime = t1,
                          endTime = None, duration = 0, distance = 0, path = [pt p1],
                          zonesVisited = []\<rparr>\<rparr>) \<and>
         \<not> isWalking s \<and> currentWalk s = None"
proof -
  have h: "homeZone (storedData s) = Some hz" using reachable_home [OF assms(1)] assms(3) by simp
  have n: "\<not> isWalking s" "currentWalk s = None"
    using reachable_no_walk [OF assms(1)] assms(2) by simp_all
  let ?s1 = "s\<lparr>currentPosition := Some p1, walkStatusRef := Leaving,
                confirmationRef := \<lparr>points = 1, c_startTime = t1, c_startPosition = Some (pt p1)\<rparr>\<rparr>"
  let ?s2 = "s\<lparr>currentPosition := Some p2, walkStatusRef := Leaving,
                confirmationRef := \<lparr>points = 2, c_startTime = t1, c_startPosition = Some (pt p1)\<rparr>\<rparr>"
  have 1: "processPositionUpdate t1 p1 s = Inr ?s1"
    using ppu_At_home_outside [OF assms(2) h assms(4)] .
  have 2: "processPositionUpdate t2 p2 ?s1 = Inr ?s2"
    using ppu_Leaving_outside [of ?s1 hz p2 "pt p1" t2] h n assms(5)
    by (simp add: WALK_START_CONFIRMATION_COUNT_def)
  have 3: "processPositionUpdate t3 p3 ?s2 =
           Inr (s\<lparr>currentPosition := Some p3, walkStatusRef := Walking, isWalking := True,
                  confirmationRef :=
                    \<lparr>points = 3, c_startTime = t1, c_startPosition = Some (pt p1)\<rparr>,
                  currentWalk :=
                    Some \<lparr>walk_id = ''walk_'' @ Number_toString t1, startTime = t1,
                          endTime = None, duration = 0, distance = 0, path = [pt p1],
                          zonesVisited = []\<rparr>\<rparr>)"
    using ppu_Leaving_outside [of ?s2 hz p3 "pt p1" t3] h n assms(6)
    by (simp add: WALK_START_CONFIRMATION_COUNT_def)
  show ?thesis using 1 2 3 n by simp
qed

theorem start_debounce_witness:
  "outside_home example_home away \<and>
   run (initial_app example_data) [PositionUpdate 1000 away, PositionUpdate 2000 away] =
     Inr (example_state away None [] Leaving
            \<lparr>points = 2, c_startTime = 1000, c_startPosition = Some (pt away)\<rparr>) \<and>
   run (initial_app example_data)
     [PositionUpdate 1000 away, PositionUpdate 2000 away, PositionUpdate 3000 away] =
     Inr (example_state away (Some (example_walk 1000 [pt away] 0 [])) [] Walking
            \<lparr>points = 3, c_startTime = 1000, c_startPosition = Some (pt away)\<rparr>)"
proof -
  have r: "run (initial_app example_data) [] = Inr (initial_app example_data)" by simp
  have a: "walkStatusRef (initial_app example_data) = At_home" by (simp add: initial_app_def)
  have h: "homeZone example_data = Some example_home" by (simp add: example_data_def)
  have o: "outside_home example_home away"
    by (simp add: outside_home_def example_home_def away_def away_outside)
  from start_debounce [OF r a h o o o, of 1000 2000 3000] o
  show ?thesis by (simp add: initial_app_def example_state_def example_walk_def example_data_def)
qed

text \<open>
  Claim C3. From a reachable state with status \<open>Walking\<close>, a sample within the home radius
  is appended to the walk and sets the status to \<open>Returning\<close>; a second consecutive sample
  within the radius appends the walk to the stored history with \<open>endTime\<close> the clock reading
  taken with the first of the two samples and \<open>duration\<close> the floor of
  \<open>(endTime - startTime) / 1000\<close>, clears \<open>currentWalk\<close> and \<open>isWalking\<close>, and sets the status
  to \<open>At_home\<close>.
\<close>

theorem end_debounce:
  assumes "run (initial_app sd) evs = Inr s" and "walkStatusRef s = Walking"
    and "currentWalk s = Some w" and "homeZone sd = Some hz"
    and "\<not> outside_home hz p1" and "\<not> outside_home hz p2"
  shows "let w1 = w\<lparr>distance := distance w +
                        getDistance (lat (last (path w))) (lng (last (path w)))
                          (coords_latitude p1) (coords_longitude p1),
                     path := path w @ [pt p1],
                     zonesVisited :=
                       visitZones (coords_latitude p1) (coords_longitude p1)
                         (customZones sd) (new_Set (zonesVisited w))\<rparr>
         in run s [PositionUpdate t1 p1] =
              Inr (s\<lparr>currentPosition := Some p1, currentWalk := Some w1,
                     walkStatusRef := Returning,
                     confirmationRef :=
                       \<lparr>points = 1, c_startTime = t1, c_startPosition = None\<rparr>\<rparr>) \<and>
            run s [PositionUpdate t1 p1, PositionUpdate t2 p2] =
              Inr (s\<lparr>currentPosition := Some p2, currentWalk := None, isWalking := False,
                     walkStatusRef := At_home,
                     confirmationRef :=
                       \<lparr>points = 2, c_startTime = t1, c_startPosition = None\<rparr>,
                     storedData := (storedData s)
                       \<lparr>walks := walks (storedData s) @
                          [w1\<lparr>endTime := Some t1,
                              duration := (t1 - startTime w) div 1000\<rparr>]\<rparr>\<rparr>)"
proof -
  have h: "homeZone (storedData s) = Some hz" using reachable_home [OF assms(1)] assms(4) by simp
  have z: "customZones (storedData s) = customZones sd" using reachable_zones [OF assms(1)] .
  have p: "path w \<noteq> []" using reachable_walk [OF assms(1,3)] by simp
  define w1 where "w1 = w\<lparr>distance := distance w +
                        getDistance (lat (last (path w))) (lng (last (path w)))
                          (coords_latitude p1) (coords_longitude p1),
                     path := path w @ [pt p1],
                     zonesVisited :=
                       visitZones (coords_latitude p1) (coords_longitude p1)
                         (customZones sd) (new_Set (zonesVisited w))\<rparr>"
  let ?s1 = "s\<lparr>currentPosition := Some p1, currentWalk := Some w1,
                     walkStatusRef := Returning,
                     confirmationRef :=
                       \<lparr>points = 1, c_startTime = t1, c_startPosition = None\<rparr>\<rparr>"
  have 1: "processPositionUpdate t1 p1 s = Inr ?s1"
    using ppu_Walking [OF assms(2) h assms(3) p, of t1 p1] assms(5) z
    by (simp add: Let_def w1_def)
  have 2: "processPositionUpdate t2 p2 ?s1 =
           Inr (s\<lparr>currentPosition := Some p2, currentWalk := None, isWalking := False,
                     walkStatusRef := At_home,
                     confirmationRef :=
                       \<lparr>points = 2, c_startTime = t1, c_startPosition = None\<rparr>,
                     storedData := (storedData s)
                       \<lparr>walks := walks (storedData s) @
                          [w1\<lparr>endTime := Some t1,
                              duration := (t1 - startTime w) div 1000\<rparr>]\<rparr>\<rparr>)"
    using ppu_Returning_inside [of ?s1 hz w1 p2 t2] h assms(6)
    by (simp add: WALK_END_CONFIRMATION_COUNT_def w1_def)
  show ?thesis using 1 2 unfolding Let_def w1_def [symmetric] by simp
qed

theorem end_debounce_witness:
  "run (example_state away (Some (example_walk 1000 [pt away] 0 [])) [] Walking
          \<lparr>points = 3, c_startTime = 1000, c_startPosition = Some (pt away)\<rparr>)
     [PositionUpdate 4000 at_door, PositionUpdate 5000 at_door] =
   Inr (example_state at_door None
          [(example_walk 1000 [pt away, pt at_door] (getDistance 0 180 0 0) [])
             \<lparr>endTime := Some 4000, duration := 3\<rparr>]
          At_home
          \<lparr>points = 2, c_startTime = 4000, c_startPosition = None\<rparr>)"
proof -
  let ?w = "example_walk 1000 [pt away] 0 []"
  let ?s = "example_state away (Some ?w) [] Walking
              \<lparr>points = 3, c_startTime = 1000, c_startPosition = Some (pt away)\<rparr>"
  have a: "walkStatusRef ?s = Walking" and c: "currentWalk ?s = Some ?w"
    by (simp_all add: example_state_def)
  have h: "homeZone example_data = Some example_home" by (simp add: example_data_def)
  have i: "\<not> outside_home example_home at_door"
    by (simp add: outside_home_def example_home_def at_door_def getDistance_same at_door_inside)
  from end_debounce [OF example_run_3 a c h i i, of 4000 5000]
  show ?thesis
    by (simp add: Let_def example_state_def example_walk_def example_data_def example_park_def
          pt_def away_def at_door_def visitZones_def new_Set_def at_door_not_in_park)
qed

text \<open>
  Claim C4. From a reachable state with status \<open>Returning\<close>, a sample beyond the home radius
  sets the status back to \<open>Walking\<close> and changes nothing else but the current position: the
  walk in progress is kept and nothing is added to the history. The next sample is then
  appended to the path of that same walk and its distance from the last point of the
  path is added.
\<close>

theorem interruption_resumes_walk:
  assumes "run (initial_app sd) evs = Inr s" and "walkStatusRef s = Returning"
    and "currentWalk s = Some w" and "homeZone sd = Some hz" and "outside_home hz p"
  shows "run s [PositionUpdate t p] = Inr (s\<lparr>currentPosition := Some p, walkStatusRef := Walking\<rparr>) \<and>
         (\<exists>s2. run s [PositionUpdate t p, PositionUpdate t2 p2] = Inr s2 \<and>
               currentWalk s2 =
                 Some (w\<lparr>distance := distance w +
                            getDistance (lat (last (path w))) (lng (last (path w)))
                              (coords_latitude p2) (coords_longitude p2),
                          path := path w @ [pt p2],
                          zonesVisited :=
                            visitZones (coords_latitude p2) (coords_longitude p2)
                              (customZones sd) (new_Set (zonesVisited w))\<rparr>) \<and>
               isWalking s2 \<and> walks (storedData s2) = walks (storedData s))"
proof -
  have h: "homeZone (storedData s) = Some hz" using reachable_home [OF assms(1)] assms(4) by simp
  have z: "customZones (storedData s) = customZones sd" using reachable_zones [OF assms(1)] .
  have p: "path w \<noteq> []" and i: "isWalking s" using reachable_walk [OF assms(1,3)] by simp_all
  let ?s1 = "s\<lparr>currentPosition := Some p, walkStatusRef := Walking\<rparr>"
  have 1: "processPositionUpdate t p s = Inr ?s1"
    using ppu_Returning_outside [OF assms(2) h assms(5)] .
  have 2: "\<exists>s2. processPositionUpdate t2 p2 ?s1 = Inr s2 \<and>
               currentWalk s2 =
                 Some (w\<lparr>distance := distance w +
                            getDistance (lat (last (path w))) (lng (last (path w)))
                              (coords_latitude p2) (coords_longitude p2),
                          path := path w @ [pt p2],
                          zonesVisited :=
                            visitZones (coords_latitude p2) (coords_longitude p2)
                              (customZones sd) (new_Set (zonesVisited w))\<rparr>) \<and>
               isWalking s2 \<and> walks (storedData s2) = walks (storedData s)"
    using ppu_Walking [of ?s1 hz w t2 p2] h assms(3) p z i
    by (simp add: Let_def)
  show ?thesis using 1 2 by auto
qed

theorem interruption_resumes_walk_witness:
  "run (example_state at_door
          (Some (example_walk 1000 [pt away, pt away, pt at_door] (getDistance 0 180 0 0)
                   [''Park'']))
          [] Returning \<lparr>points = 1, c_startTime = 5000, c_startPosition = None\<rparr>)
     [PositionUpdate 6000 away] =
   Inr (example_state away
          (Some (example_walk 1000 [pt away, pt away, pt at_door] (getDistance 0 180 0 0)
                   [''Park'']))
          [] Walking \<lparr>points = 1, c_startTime = 5000, c_startPosition = None\<rparr>) \<and>
   (\<exists>s2. run (example_state at_door
                (Some (example_walk 1000 [pt away, pt away, pt at_door] (getDistance 0 180 0 0)
                         [''Park'']))
                [] Returning \<lparr>points = 1, c_startTime = 5000, c_startPosition = None\<rparr>)
           [PositionUpdate 6000 away, PositionUpdate 7000 at_door] = Inr s2 \<and>
         currentWalk s2 =
           Some (example_walk 1000 [pt away, pt away, pt at_door, pt at_door]
                   (getDistance 0 180 0 0) [''Park'']))"
proof -
  let ?w = "example_walk 1000 [pt away, pt away, pt at_door] (getDistance 0 180 0 0) [''Park'']"
  let ?s = "example_state at_door (Some ?w) [] Returning
              \<lparr>points = 1, c_startTime = 5000, c_startPosition = None\<rparr>"
  have a: "walkStatusRef ?s = Returning" and c: "currentWalk ?s = Some ?w"
    by (simp_all add: example_state_def)
  have h: "homeZone example_data = Some example_home" by (simp add: example_data_def)
  have o: "outside_home example_home away"
    by (simp add: outside_home_def example_home_def away_def away_outside)
  have u: "?w\<lparr>distance := distance ?w +
                 getDistance (lat (last (path ?w))) (lng (last (path ?w)))
                   (coords_latitude at_door) (coords_longitude at_door),
              path := path ?w @ [pt at_door],
              zonesVisited :=
                visitZones (coords_latitude at_door) (coords_longitude at_door)
                  (customZones example_data) (new_Set (zonesVisited ?w))\<rparr> =
           example_walk 1000 [pt away, pt away, pt at_door, pt at_door]
             (getDistance 0 180 0 0) [''Park'']"
    by (simp add: example_walk_def example_data_def example_park_def pt_def at_door_def
          visitZones_def new_Set_def Set_add_def getDistance_same at_door_not_in_park)
  have e: "?s\<lparr>currentPosition := Some away, walkStatusRef := Walking\<rparr> =
           example_state away (Some ?w) [] Walking
             \<lparr>points = 1, c_startTime = 5000, c_startPosition = None\<rparr>"
    by (simp add: example_state_def)
  note t = interruption_resumes_walk [OF example_run_5 a c h o, of 6000 7000 at_door]
  from t have 1: "run ?s [PositionUpdate 6000 away] =
                  Inr (?s\<lparr>currentPosition := Some away, walkStatusRef := Walking\<rparr>)"
    by (rule conjunct1)
  from t obtain s2 where 2: "run ?s [PositionUpdate 6000 away, PositionUpdate 7000 at_door] = Inr s2"
    and 3: "currentWalk s2 =
            Some (example_walk 1000 [pt away, pt away, pt at_door, pt at_door]
                    (getDistance 0 180 0 0) [''Park''])"
    unfolding u by blast
  show ?thesis using 1 2 3 unfolding e by blast
qed

text \<open>
  Claim C5. After every run, the distance of the walk in progress is the sum of the
  distances between consecutive points of its path, and so is the distance of every walk
  that the run has added to the history.
\<close>

theorem distance_is_path_length:
  "\<exists>s. run (initial_app sd) evs = Inr s \<and>
       (\<forall>w. currentWalk s = Some w \<longrightarrow> distance w = path_length (path w)) \<and>
       (\<forall>w\<in>set (completed sd s). distance w = path_length (path w))"
proof -
  obtain s where r: "run (initial_app sd) evs = Inr s" and d: "data_inv sd s"
    using reachable_invariants by blast
  from d obtain ws where ws: "walks (storedData s) = walks sd @ ws" "\<forall>w\<in>set ws. walk_inv w"
    by (auto simp: data_inv_def)
  have c: "completed sd s = ws" using ws(1) by (rule completed_eq)
  have "\<forall>w. currentWalk s = Some w \<longrightarrow> walk_inv w" using d by (auto simp: data_inv_def)
  with r ws(2) c show ?thesis by (auto simp: walk_inv_def)
qed

theorem distance_is_path_length_witness:
  "\<exists>s w. run (initial_app example_data)
            [PositionUpdate 1000 away, PositionUpdate 2000 away, PositionUpdate 3000 away,
             PositionUpdate 4000 away, PositionUpdate 5000 at_door, PositionUpdate 6000 at_door,
             PositionUpdate 7000 away, PositionUpdate 8000 away, PositionUpdate 9000 away,
             PositionUpdate 10000 at_door] = Inr s \<and>
         currentWalk s = Some w \<and> path w = [pt away, pt at_door] \<and>
         distance w = path_length [pt away, pt at_door] \<and>
         (\<forall>v\<in>set (completed example_data s). distance v = path_length (path v)) \<and>
         length (completed example_data s) = 1"
proof -
  let ?evs = "[PositionUpdate 1000 away, PositionUpdate 2000 away, PositionUpdate 3000 away,
             PositionUpdate 4000 away, PositionUpdate 5000 at_door, PositionUpdate 6000 at_door,
             PositionUpdate 7000 away, PositionUpdate 8000 away, PositionUpdate 9000 away,
             PositionUpdate 10000 at_door]"
  from distance_is_path_length [of example_data ?evs]
  obtain s where s: "run (initial_app example_data) ?evs = Inr s"
    and a: "\<forall>w. currentWalk s = Some w \<longrightarrow> distance w = path_length (path w)"
    and b: "\<forall>w\<in>set (completed example_data s). distance w = path_length (path w)"
    by blast
  let ?w = "example_walk 7000 [pt away, pt at_door] (getDistance 0 180 0 0) []"
  from s have cw: "currentWalk s = Some ?w" and l: "length (completed example_data s) = 1"
    unfolding example_run_10
    by (auto simp: example_state_def completed_def example_data_def)
  have p: "path ?w = [pt away, pt at_door]" by (simp add: example_walk_def)
  from a cw have "distance ?w = path_length (path ?w)" by blast
  with p have "distance ?w = path_length [pt away, pt at_door]" by simp
  with s cw p b l show ?thesis by blast
qed

text \<open>
  Claim C6, as stated, fails: after a sample beyond the home radius and a sample back
  within it the status is \<open>At_home\<close>, but the confirmation record still holds the count 1,
  the time and the position of the abandoned candidate.
\<close>

theorem leaving_revert_keeps_counter:
  "run (initial_app example_data) [PositionUpdate 1000 away] =
     Inr (example_state away None [] Leaving
            \<lparr>points = 1, c_startTime = 1000, c_startPosition = Some (pt away)\<rparr>) \<and>
   run (initial_app example_data) [PositionUpdate 1000 away, PositionUpdate 2000 at_door] =
     Inr (example_state at_door None [] At_home
            \<lparr>points = 1, c_startTime = 1000, c_startPosition = Some (pt away)\<rparr>)"
  by (simp add: example_simps)

text \<open>
  Claim C6, amended. From a reachable state with status \<open>Leaving\<close>, a sample within the home
  radius sets the status to \<open>At_home\<close> and changes nothing else but the current position, so
  the confirmation record keeps its count. The next sample beyond the radius overwrites
  the record with the count 1 and its own time and position; only the third consecutive
  sample beyond the radius starts a walk, which begins at the first of these three.
\<close>

theorem return_before_confirmation:
  assumes "run (initial_app sd) evs = Inr s" and "walkStatusRef s = Leaving"
    and "homeZone sd = Some hz" and "\<not> outside_home hz p0"
    and "outside_home hz p1" and "outside_home hz p2" and "outside_home hz p3"
  shows "run s [PositionUpdate t0 p0] =
           Inr (s\<lparr>currentPosition := Some p0, walkStatusRef := At_home\<rparr>) \<and>
         run s [PositionUpdate t0 p0, PositionUpdate t1 p1] =
           Inr (s\<lparr>currentPosition := Some p1, walkStatusRef := Leaving,
                  confirmationRef :=
                    \<lparr>points = 1, c_startTime = t1, c_startPosition = Some (pt p1)\<rparr>\<rparr>) \<and>
         run s [PositionUpdate t0 p0, PositionUpdate t1 p1, PositionUpdate t2 p2] =
           Inr (s\<lparr>currentPosition := Some p2, walkStatusRef := Leaving,
                  confirmationRef :=
                    \<lparr>points = 2, c_startTime = t1, c_startPosition = Some (pt p1)\<rparr>\<rparr>) \<and>
         run s [PositionUpdate t0 p0, PositionUpdate t1 p1, PositionUpdate t2 p2,
                PositionUpdate t3 p3] =
           Inr (s\<lparr>currentPosition := Some p3, walkStatusRef := Walking, isWalking := True,
                  confirmationRef :=
                    \<lparr>points = 3, c_startTime = t1, c_startPosition = Some (pt p1)\<rparr>,
                  currentWalk :=
                    Some \<lparr>walk_id = ''walk_'' @ Number_toString t1, startTime = t1,
                          endTime = None, duration = 0, distance = 0, path = [pt p1],
                          zonesVisited = []\<rparr>\<rparr>) \<and>
         \<not> isWalking s \<and> currentWalk s = None"
proof -
  have h: "homeZone (storedData s) = Some hz" using reachable_home [OF assms(1)] assms(3) by simp
  have n: "\<not> isWalking s" "currentWalk s = None"
    using reachable_no_walk [OF assms(1)] assms(2) by simp_all
  let ?s0 = "s\<lparr>currentPosition := Some p0, walkStatusRef := At_home\<rparr>"
  let ?s1 = "s\<lparr>currentPosition := Some p1, walkStatusRef := Leaving,
                confirmationRef := \<lparr>points = 1, c_startTime = t1, c_startPosition = Some (pt p1)\<rparr>\<rparr>"
  let ?s2 = "s\<lparr>currentPosition := Some p2, walkStatusRef := Leaving,
                confirmationRef := \<lparr>points = 2, c_startTime = t1, c_startPosition = Some (pt p1)\<rparr>\<rparr>"
  have 0: "processPositionUpdate t0 p0 s = Inr ?s0"
    using ppu_Leaving_inside [OF assms(2) h assms(4)] .
  have 1: "processPositionUpdate t1 p1 ?s0 = Inr ?s1"
    using ppu_At_home_outside [of ?s0 hz p1 t1] h assms(5) by simp
  have 2: "processPositionUpdate t2 p2 ?s1 = Inr ?s2"
    using ppu_Leaving_outside [of ?s1 hz p2 "pt p1" t2] h n assms(6)
    by (simp add: WALK_START_CONFIRMATION_COUNT_def)
  have 3: "processPositionUpdate t3 p3 ?s2 =
           Inr (s\<lparr>currentPosition := Some p3, walkStatusRef := Walking, isWalking := True,
                  confirmationRef :=
                    \<lparr>points = 3, c_startTime = t1, c_startPosition = Some (pt p1)\<rparr>,
                  currentWalk :=
                    Some \<lparr>walk_id = ''walk_'' @ Number_toString t1, startTime = t1,
                          endTime = None, duration = 0, distance = 0, path = [pt p1],
                          zonesVisited = []\<rparr>\<rparr>)"
    using ppu_Leaving_outside [of ?s2 hz p3 "pt p1" t3] h n assms(7)
    by (simp add: WALK_START_CONFIRMATION_COUNT_def)
  show ?thesis using 0 1 2 3 n by simp
qed

theorem return_before_confirmation_witness:
  "run (example_state away None [] Leaving
          \<lparr>points = 1, c_startTime = 1000, c_startPosition = Some (pt away)\<rparr>)
     [PositionUpdate 2000 at_door, PositionUpdate 3000 away, PositionUpdate 4000 away] =
     Inr (example_state away None [] Leaving
            \<lparr>points = 2, c_startTime = 3000, c_startPosition = Some (pt away)\<rparr>) \<and>
   run (example_state away None [] Leaving
          \<lparr>points = 1, c_startTime = 1000, c_startPosition = Some (pt away)\<rparr>)
     [PositionUpdate 2000 at_door, PositionUpdate 3000 away, PositionUpdate 4000 away,
      PositionUpdate 5000 away] =
     Inr (example_state away (Some (example_walk 3000 [pt away] 0 [])) [] Walking
            \<lparr>points = 3, c_startTime = 3000, c_startPosition = Some (pt away)\<rparr>)"
proof -
  let ?s = "example_state away None [] Leaving
              \<lparr>points = 1, c_startTime = 1000, c_startPosition = Some (pt away)\<rparr>"
  have a: "walkStatusRef ?s = Leaving" by (simp add: example_state_def)
  have h: "homeZone example_data = Some example_home" by (simp add: example_data_def)
  have o: "outside_home example_home away"
    by (simp add: outside_home_def example_home_def away_def away_outside)
  have i: "\<not> outside_home example_home at_door"
    by (simp add: outside_home_def example_home_def at_door_def getDistance_same at_door_inside)
  from return_before_confirmation [OF example_run_1 a h i o o o, of 2000 3000 4000 5000]
  show ?thesis by (simp add: example_state_def example_walk_def)
qed

text \<open>
  Claim C8. In a reachable state with a walk in progress and a home zone configured, no
  name occurs more than once in \<open>zonesVisited\<close>, and the name of every custom zone that
  contains at least one of the samples handled in status \<open>Walking\<close> since the walk began
  occurs exactly once.
\<close>

theorem zone_names_once:
  assumes "run (initial_app sd) evs = Inr s" and "currentWalk s = Some w"
    and "homeZone sd = Some hz"
  shows "(\<forall>n. count_list (zonesVisited w) n \<le> 1) \<and>
         (\<forall>z\<in>set (customZones sd).
            (\<exists>p\<in>set (snd (expected (initial_app sd) (None, []) evs)). in_zone p z) \<longrightarrow>
            count_list (zonesVisited w) (name z) = 1)"
proof -
  have d: "distinct (zonesVisited w)"
    using reachable_data_inv [OF assms(1)] assms(2) by (simp add: data_inv_def walk_inv_def)
  have g: "ghost_inv s (expected (initial_app sd) (None, []) evs)"
    using reachable_ghost_inv [OF assms(1)] assms(3) by simp
  have z: "customZones (storedData s) = customZones sd" using reachable_zones [OF assms(1)] .
  have "\<forall>p\<in>set (snd (expected (initial_app sd) (None, []) evs)). \<forall>z\<in>set (customZones sd).
          in_zone p z \<longrightarrow> name z \<in> set (zonesVisited w)"
    using g assms(2) z by (simp add: ghost_inv_def)
  with d show ?thesis by (auto simp: distinct_count_list)
qed

theorem zone_names_once_witness:
  "\<exists>s w. run (initial_app example_data)
            [PositionUpdate 1000 away, PositionUpdate 2000 away, PositionUpdate 3000 away,
             PositionUpdate 4000 away, PositionUpdate 5000 away, PositionUpdate 6000 at_door] =
            Inr s \<and>
         walkStatusRef s = Returning \<and> currentWalk s = Some w \<and>
         snd (expected (initial_app example_data) (None, [])
                [PositionUpdate 1000 away, PositionUpdate 2000 away, PositionUpdate 3000 away,
                 PositionUpdate 4000 away, PositionUpdate 5000 away,
                 PositionUpdate 6000 at_door]) = [pt away, pt away, pt at_door] \<and>
         in_zone (pt away) example_park \<and> \<not> in_zone (pt at_door) example_park \<and>
         zonesVisited w = [''Park''] \<and>
         count_list (zonesVisited w) (name example_park) = 1 \<and>
         (\<forall>n. count_list (zonesVisited w) n \<le> 1)"
proof -
  let ?evs = "[PositionUpdate 1000 away, PositionUpdate 2000 away, PositionUpdate 3000 away,
               PositionUpdate 4000 away, PositionUpdate 5000 away, PositionUpdate 6000 at_door]"
  let ?w = "example_walk 1000 [pt away, pt away, pt away, pt at_door]
              (getDistance 0 180 0 0) [''Park'']"
  let ?s = "example_state at_door (Some ?w) [] Returning
              \<lparr>points = 1, c_startTime = 6000, c_startPosition = None\<rparr>"
  have r: "run (initial_app example_data) ?evs = Inr ?s" by (rule example_run_6)
  have st: "walkStatusRef ?s = Returning" and cw: "currentWalk ?s = Some ?w"
    by (simp_all add: example_state_def)
  have g: "snd (expected (initial_app example_data) (None, []) ?evs) =
           [pt away, pt away, pt at_door]"
    unfolding example_expected_6 by simp
  have i: "in_zone (pt away) example_park" "\<not> in_zone (pt at_door) example_park"
    by (simp_all add: in_zone_def pt_def away_def at_door_def example_park_def
          getDistance_same at_door_not_in_park)
  have hz: "homeZone example_data = Some example_home" by (simp add: example_data_def)
  have z: "example_park \<in> set (customZones example_data)" by (simp add: example_data_def)
  have e: "\<exists>p\<in>set (snd (expected (initial_app example_data) (None, []) ?evs)).
             in_zone p example_park"
    unfolding g using i(1) by simp
  note t = zone_names_once [OF r cw hz]
  from t z e have c: "count_list (zonesVisited ?w) (name example_park) = 1" by blast
  from t have a: "\<forall>n. count_list (zonesVisited ?w) n \<le> 1" by (rule conjunct1)
  have v: "zonesVisited ?w = [''Park'']" by (simp add: example_walk_def)
  from r st cw g i v c a show ?thesis by blast
qed

text \<open>
  Claim C9. In a reachable state with a walk in progress the manual start changes nothing:
  the state after it is the state before it, so no second walk is created.
\<close>

theorem manual_start_rejected:
  assumes "run (initial_app sd) evs = Inr s" and "currentWalk s = Some w"
  shows "handleManualStart now s = s \<and> run (initial_app sd) (evs @ [ManualStart now]) = Inr s"
proof -
  have "isWalking s" using reachable_state_inv [OF assms(1)] assms(2) by (simp add: state_inv_def)
  then have h: "handleManualStart now s = s"
    by (simp add: handleManualStart_def startWalk_def split: option.splits)
  have "run (initial_app sd) (evs @ [ManualStart now]) = Inr s"
    using assms(1) h by (simp add: run_append)
  with h show ?thesis by simp
qed

theorem manual_start_rejected_witness:
  "run (initial_app example_data)
     ([PositionUpdate 1000 away, PositionUpdate 2000 away, PositionUpdate 3000 away] @
      [ManualStart 3500]) =
   Inr (example_state away (Some (example_walk 1000 [pt away] 0 [])) [] Walking
          \<lparr>points = 3, c_startTime = 1000, c_startPosition = Some (pt away)\<rparr>)"
  using manual_start_rejected [OF example_run_3, of "example_walk 1000 [pt away] 0 []" 3500]
  by (simp add: example_state_def)

text \<open>
  Claim C10. In a reachable state with a walk in progress and a home zone configured, the
  path of the walk is the candidate start position followed by exactly the samples
  handled in status \<open>Walking\<close> since then, in the order of their arrival, and the distance of
  the walk is the length of that path. Samples handled in status \<open>Leaving\<close> or \<open>Returning\<close>
  are not among them.
\<close>

theorem path_is_start_then_walking_samples:
  assumes "run (initial_app sd) evs = Inr s" and "currentWalk s = Some w"
    and "homeZone sd = Some hz"
  shows "\<exists>start samples.
           expected (initial_app sd) (None, []) evs = (Some start, samples) \<and>
           path w = start # samples \<and>
           distance w = path_length (start # samples)"
proof -
  have d: "distance w = path_length (path w)"
    using reachable_data_inv [OF assms(1)] assms(2) by (simp add: data_inv_def walk_inv_def)
  have g: "ghost_inv s (expected (initial_app sd) (None, []) evs)"
    using reachable_ghost_inv [OF assms(1)] assms(3) by simp
  obtain c samples where e: "expected (initial_app sd) (None, []) evs = (c, samples)"
    by (cases "expected (initial_app sd) (None, []) evs")
  from g assms(2) e obtain start where "c = Some start" "path w = start # samples"
    by (auto simp: ghost_inv_def split: option.splits)
  with d e show ?thesis by simp
qed

theorem path_is_start_then_walking_samples_witness:
  "\<exists>s w. run (initial_app example_data)
            [PositionUpdate 1000 away, PositionUpdate 2000 away, PositionUpdate 3000 away,
             PositionUpdate 4000 away, PositionUpdate 5000 at_door, PositionUpdate 6000 away,
             PositionUpdate 7000 at_door] = Inr s \<and>
         walkStatusRef s = Returning \<and> currentWalk s = Some w \<and>
         expected (initial_app example_data) (None, [])
           [PositionUpdate 1000 away, PositionUpdate 2000 away, PositionUpdate 3000 away,
            PositionUpdate 4000 away, PositionUpdate 5000 at_door, PositionUpdate 6000 away,
            PositionUpdate 7000 at_door] =
           (Some (pt away), [pt away, pt at_door, pt at_door]) \<and>
         path w = [pt away, pt away, pt at_door, pt at_door] \<and>
         distance w = path_length [pt away, pt away, pt at_door, pt at_door]"
proof -
  let ?evs = "[PositionUpdate 1000 away, PositionUpdate 2000 away, PositionUpdate 3000 away,
      PositionUpdate 4000 away, PositionUpdate 5000 at_door, PositionUpdate 6000 away,
      PositionUpdate 7000 at_door]"
  let ?w = "example_walk 1000 [pt away, pt away, pt at_door, pt at_door]
                   (getDistance 0 180 0 0) [''Park'']"
  let ?s = "example_state at_door (Some ?w) [] Returning
              \<lparr>points = 1, c_startTime = 7000, c_startPosition = None\<rparr>"
  have r: "run (initial_app example_data) ?evs = Inr ?s" by (rule example_run_7)
  have st: "walkStatusRef ?s = Returning" and cw: "currentWalk ?s = Some ?w"
    by (simp_all add: example_state_def)
  have hz: "homeZone example_data = Some example_home" by (simp add: example_data_def)
  have g: "expected (initial_app example_data) (None, []) ?evs =
           (Some (pt away), [pt away, pt at_door, pt at_door])"
    by (rule example_expected_7)
  from path_is_start_then_walking_samples [OF r cw hz]
  have "path ?w = [pt away, pt away, pt at_door, pt at_door] \<and>
        distance ?w = path_length [pt away, pt away, pt at_door, pt at_door]"
    unfolding g by simp
  with r st cw g show ?thesis by blast
qed

end
